theory Spec2Isabelle
  imports
    Complex_Main
    "HOL-Library.Sublist"
    "HOL-Library.List_Lexorder"
    "HOL-Library.Char_ord"
begin

section \<open>Python floats\<close>

text \<open>
  The module \<^verbatim>\<open>slideshow_maker/slideshow.py\<close> computes its durations with Python floats,
  that is IEEE 754 binary64 numbers: 53 bits of precision, normal exponents from -1022 to
  1023, subnormal numbers below, two infinities and NaN. A float is modelled by its exact
  value, a real number, or as an infinity or NaN. The sign of a zero is not kept: the module never
  observes it, since a division by either zero raises and \<^verbatim>\<open>int\<close> maps both to 0.

  Durations are floats throughout: an \<^verbatim>\<open>int\<close> passed for a duration gives the same
  results as its conversion to float, which is exact, as long as it is below \<open>2 ^ 52\<close> in
  magnitude.
\<close>

datatype py_float = Finite real | PosInf | NegInf | NaN

text \<open>
  The exceptions of the module: those its arithmetic can raise, and those of
  \<^verbatim>\<open>os.path.getsize\<close>, of which the module catches \<^verbatim>\<open>FileNotFoundError\<close> only (\<open>OSError\<close>
  stands for every other one). \<open>InvalidDurationRange\<close> is the error name of the design
  document for a zero average; the module defines no such exception and no equation below
  produces it. It is part of the type only so that its absence can be stated.
\<close>

datatype py_error =
  ZeroDivisionError | OverflowError | ValueError | FileNotFoundError | OSError
  | InvalidDurationRange

text \<open>The largest finite float, and the bound from which a number rounds to infinity.\<close>

definition max_float :: real where
  "max_float = 2 ^ 1024 - 2 ^ 971"

definition overflow_bound :: real where
  "overflow_bound = 2 ^ 1024"

text \<open>
  \<open>ilog2 a\<close> is the binary exponent of a positive number: the \<open>e\<close> with
  \<open>2 ^ e \<le> a < 2 ^ (e + 1)\<close>.
\<close>

function ilog2 :: "real \<Rightarrow> int" where
  "ilog2 a =
     (if a \<le> 0 then 0
      else if 2 \<le> a then ilog2 (a / 2) + 1
      else if a < 1 then ilog2 (a * 2) - 1
      else 0)"
  by pat_completeness auto
termination
proof (relation "measure (\<lambda>a. if 1 \<le> a then nat \<lfloor>a\<rfloor> else nat \<lceil>1 / a\<rceil> + 1)")
  show "wf (measure (\<lambda>a::real. if 1 \<le> a then nat \<lfloor>a\<rfloor> else nat \<lceil>1 / a\<rceil> + 1))"
    by simp
next
  fix a :: real
  assume "\<not> a \<le> 0" and a: "2 \<le> a"
  have "a / 2 < of_int \<lfloor>a\<rfloor>"
    using a floor_correct [of a] by linarith
  then have "\<lfloor>a / 2\<rfloor> < \<lfloor>a\<rfloor>"
    by (simp add: floor_less_iff)
  moreover have "0 < \<lfloor>a\<rfloor>"
    using a by simp
  ultimately show
    "(a / 2, a) \<in> measure (\<lambda>a. if 1 \<le> a then nat \<lfloor>a\<rfloor> else nat \<lceil>1 / a\<rceil> + 1)"
    using a by simp
next
  fix a :: real
  assume pos: "\<not> a \<le> 0" and "\<not> 2 \<le> a" and lt: "a < 1"
  have "1 < 1 / a"
    using pos lt by simp
  then have c2: "2 \<le> \<lceil>1 / a\<rceil>"
    by (simp add: le_ceiling_iff)
  show "(a * 2, a) \<in> measure (\<lambda>a. if 1 \<le> a then nat \<lfloor>a\<rfloor> else nat \<lceil>1 / a\<rceil> + 1)"
  proof (cases "1 \<le> a * 2")
    case True
    have "\<lfloor>a * 2\<rfloor> = 1"
      using True lt by (simp add: floor_eq_iff)
    then show ?thesis
      using True lt c2 by simp
  next
    case False
    then have big: "2 < 1 / a"
      using pos by (simp add: field_simps)
    have "1 / (a * 2) \<le> of_int \<lceil>1 / a\<rceil> - 1"
    proof -
      have "1 / (a * 2) = (1 / a) / 2"
        by simp
      moreover have "1 / a \<le> of_int \<lceil>1 / a\<rceil>"
        by (rule le_of_int_ceiling)
      ultimately show ?thesis
        using big by linarith
    qed
    then have "\<lceil>1 / (a * 2)\<rceil> < \<lceil>1 / a\<rceil>"
      by (simp add: ceiling_less_iff)
    moreover have "0 < \<lceil>1 / (a * 2)\<rceil>"
      using pos by simp
    ultimately show ?thesis
      using False lt by simp
  qed
qed

declare ilog2.simps [simp del]

text \<open>Rounding to the nearest integer, a tie to the even one.\<close>

definition round_half_even :: "real \<Rightarrow> int" where
  "round_half_even x =
     (let f = \<lfloor>x\<rfloor>; r = x - of_int f in
      if r < 1 / 2 then f
      else if 1 / 2 < r then f + 1
      else if even f then f else f + 1)"

text \<open>
  \<open>round64 x\<close> is the float nearest to \<open>x\<close>, a tie going to the even mantissa: the result
  of every binary64 operation whose exact value is \<open>x\<close>, and the value of a float literal.
  \<open>float_ulp a\<close> is the spacing of the floats around the magnitude \<open>a\<close>: 52 binary places
  below its exponent, and that of the subnormal numbers, \<open>2 ^ -1074\<close>, below \<open>min_normal\<close>.
  A magnitude that rounds beyond \<open>max_float\<close> becomes an infinity.
\<close>

definition min_normal :: real where
  "min_normal = 1 / 2 ^ 1022"

definition float_ulp :: "real \<Rightarrow> real" where
  "float_ulp a = 2 powi ((if a < min_normal then - 1022 else ilog2 a) - 52)"

definition round64 :: "real \<Rightarrow> py_float" where
  "round64 x =
     (let a = \<bar>x\<bar> in
      if overflow_bound \<le> a then (if x < 0 then NegInf else PosInf)
      else
        (let ulp = float_ulp a;
             r = of_int (round_half_even (a / ulp)) * ulp in
         if max_float < r then (if x < 0 then NegInf else PosInf)
         else Finite (if x < 0 then - r else r)))"

text \<open>Float addition. It never raises; an overflow gives an infinity.\<close>

fun fl_add :: "py_float \<Rightarrow> py_float \<Rightarrow> py_float" where
  "fl_add (Finite a) (Finite b) = round64 (a + b)"
| "fl_add NaN y = NaN"
| "fl_add x NaN = NaN"
| "fl_add PosInf NegInf = NaN"
| "fl_add NegInf PosInf = NaN"
| "fl_add PosInf y = PosInf"
| "fl_add NegInf y = NegInf"
| "fl_add x PosInf = PosInf"
| "fl_add x NegInf = NegInf"

text \<open>
  Float division by a divisor that is not zero (Python raises before dividing by zero, see
  \<open>py_truediv\<close>; the value given here for a zero divisor is never used).
\<close>

fun fl_div :: "py_float \<Rightarrow> py_float \<Rightarrow> py_float" where
  "fl_div (Finite a) (Finite b) = (if b = 0 then NaN else round64 (a / b))"
| "fl_div NaN y = NaN"
| "fl_div x NaN = NaN"
| "fl_div (Finite a) PosInf = Finite 0"
| "fl_div (Finite a) NegInf = Finite 0"
| "fl_div PosInf (Finite b) = (if b < 0 then NegInf else PosInf)"
| "fl_div NegInf (Finite b) = (if b < 0 then PosInf else NegInf)"
| "fl_div x y = NaN"

text \<open>\<^verbatim>\<open>a / b\<close> on floats: \<^verbatim>\<open>ZeroDivisionError\<close> for a zero divisor, whatever \<open>a\<close> is.\<close>

definition py_truediv :: "py_float \<Rightarrow> py_float \<Rightarrow> py_error + py_float" where
  "py_truediv a b = (if b = Finite 0 then Inl ZeroDivisionError else Inr (fl_div a b))"

text \<open>
  \<^verbatim>\<open>int(x)\<close> on a float truncates towards zero; it raises \<^verbatim>\<open>ValueError\<close> on NaN and
  \<^verbatim>\<open>OverflowError\<close> on an infinity.
\<close>

fun py_int :: "py_float \<Rightarrow> py_error + int" where
  "py_int (Finite x) = Inr (if x < 0 then \<lceil>x\<rceil> else \<lfloor>x\<rfloor>)"
| "py_int NaN = Inl ValueError"
| "py_int PosInf = Inl OverflowError"
| "py_int NegInf = Inl OverflowError"

text \<open>
  The conversion of an \<^verbatim>\<open>int\<close> to float, as in \<^verbatim>\<open>n * x\<close> with a float \<open>x\<close>: the nearest
  float, and \<^verbatim>\<open>OverflowError\<close> when that would be beyond \<open>max_float\<close>, which is from
  \<open>2 ^ 1024 - 2 ^ 970\<close> on.
\<close>

definition int_float_limit :: int where
  "int_float_limit = 2 ^ 1024 - 2 ^ 970"

definition py_float_of_int :: "int \<Rightarrow> py_error + py_float" where
  "py_float_of_int n =
     (if \<bar>n\<bar> < int_float_limit then Inr (round64 (of_int n)) else Inl OverflowError)"

section \<open>Python lists\<close>

text \<open>\<^verbatim>\<open>xs[:n]\<close>: a negative stop counts from the end, and the slice never raises.\<close>

definition py_slice_to :: "'a list \<Rightarrow> int \<Rightarrow> 'a list" where
  "py_slice_to xs n =
     (if n < 0 then take (nat (int (length xs) + n)) xs else take (nat n) xs)"

text \<open>
  \<^verbatim>\<open>random.choice(seq)\<close> returns \<^verbatim>\<open>seq[k]\<close> for some index \<open>k\<close> below \<^verbatim>\<open>len(seq)\<close>.
  The random source is a function from the number of the draw to a raw value; the index
  is that value reduced modulo the length. The module only draws from non-empty lists.
\<close>

definition random_choice :: "(nat \<Rightarrow> nat) \<Rightarrow> nat \<Rightarrow> 'a list \<Rightarrow> 'a" where
  "random_choice rng i seq = seq ! (rng i mod length seq)"

section \<open>Configuration\<close>

text \<open>
  The constants imported from \<^verbatim>\<open>.config\<close>. Their values are not part of the module, so
  they are parameters of everything below.
\<close>

record config =
  MAX_SLIDES_LIMIT :: int
  AUDIO_OUTPUT :: string
  VIDEO_OUTPUT :: string
  FINAL_OUTPUT :: string
  IMAGE_EXTENSIONS :: "string list"

section \<open>Slide count\<close>

text \<open>
  \<^verbatim>\<open>calculate_slides_needed(audio_duration, min_duration, max_duration, test_mode)\<close>.
  The literals \<^verbatim>\<open>60\<close> and \<^verbatim>\<open>2\<close> are ints and enter the divisions as the floats 60.0 and
  2.0. What can raise is the division by the average, \<^verbatim>\<open>int\<close> of the quotient and, in full
  mode, the conversion of the final count to float in the printed runtime estimate
  \<^verbatim>\<open>slides_needed * avg_duration / 60\<close>. The prints themselves are left out.
\<close>

definition calculate_slides_needed ::
  "config \<Rightarrow> py_float \<Rightarrow> py_float \<Rightarrow> py_float \<Rightarrow> bool \<Rightarrow> py_error + int" where
  "calculate_slides_needed cfg audio_duration min_duration max_duration test_mode =
     (if test_mode then
        (let test_duration = Finite 60 in
         case py_truediv test_duration
                (fl_div (fl_add min_duration max_duration) (Finite 2)) of
           Inl e \<Rightarrow> Inl e
         | Inr q \<Rightarrow>
             (case py_int q of
                Inl e \<Rightarrow> Inl e
              | Inr slides_needed \<Rightarrow> Inr slides_needed))
      else
        (let avg_duration = fl_div (fl_add min_duration max_duration) (Finite 2) in
         case py_truediv audio_duration avg_duration of
           Inl e \<Rightarrow> Inl e
         | Inr q \<Rightarrow>
             (case py_int q of
                Inl e \<Rightarrow> Inl e
              | Inr slides_needed \<Rightarrow>
                  (let slides_needed =
                         (if slides_needed > MAX_SLIDES_LIMIT cfg
                          then MAX_SLIDES_LIMIT cfg
                          else slides_needed) in
                   case py_float_of_int slides_needed of
                     Inl e \<Rightarrow> Inl e
                   | Inr minutes \<Rightarrow> Inr slides_needed))))"

section \<open>Image selection\<close>

text \<open>
  The repeat loop of full mode, \<^verbatim>\<open>for i in range(remaining): images.append(random.choice(all_images))\<close>:
  \<open>i\<close> is the loop index, the third argument the number of iterations left.
\<close>

fun add_repeats :: "(nat \<Rightarrow> nat) \<Rightarrow> 'a list \<Rightarrow> nat \<Rightarrow> nat \<Rightarrow> 'a list \<Rightarrow> 'a list" where
  "add_repeats rng all_images i 0 images = images"
| "add_repeats rng all_images i (Suc k) images =
     add_repeats rng all_images (Suc i) k (images @ [random_choice rng i all_images])"

definition select_images :: "(nat \<Rightarrow> nat) \<Rightarrow> 'a list \<Rightarrow> int \<Rightarrow> bool \<Rightarrow> 'a list" where
  "select_images rng all_images slides_needed test_mode =
     (if length all_images = 0 then []
      else if test_mode then
        (let images = py_slice_to all_images slides_needed in images)
      else
        (let images = all_images;
             remaining = slides_needed - int (length images) in
         if remaining > 0
         then add_repeats rng all_images 0 (nat remaining) images
         else images))"

section \<open>The world outside the module\<close>

text \<open>
  Everything \<^verbatim>\<open>create_slideshow_with_audio\<close> and \<^verbatim>\<open>find_images\<close> call outside this
  module: \<^verbatim>\<open>os.path\<close>, \<^verbatim>\<open>glob\<close>, the collaborators \<^verbatim>\<open>audio_mod\<close> and \<^verbatim>\<open>video_mod\<close>, and
  the global random generator. Each is a function of its arguments that returns a value;
  what the collaborators do internally is not part of the module. Only \<^verbatim>\<open>os.path.getsize\<close>,
  which the module calls under \<^verbatim>\<open>try\<close>, returns a size or an exception.
\<close>

record world =
  os_path_exists :: "string \<Rightarrow> bool"
  os_path_join :: "string \<Rightarrow> string \<Rightarrow> string"
  glob_glob :: "string \<Rightarrow> string list"
  find_audio_files :: "string \<Rightarrow> string list"
  get_total_audio_duration :: "string list \<Rightarrow> py_float"
  merge_audio :: "string list \<Rightarrow> string \<Rightarrow> bool"
  create_slideshow :: "string list \<Rightarrow> string \<Rightarrow> py_float \<Rightarrow> py_float \<Rightarrow> bool"
  combine_video_audio :: "string \<Rightarrow> string \<Rightarrow> string \<Rightarrow> bool"
  os_path_getsize :: "string \<Rightarrow> py_error + nat"
  random_source :: "nat \<Rightarrow> nat"

text \<open>The calls a run makes to the outside, in order, with their arguments.\<close>

datatype call =
    FindAudioFiles string
  | GetTotalAudioDuration "string list"
  | GlobGlob string
  | PrintFfmpegCapabilities
  | MergeAudio "string list" string
  | CreateSlideshow "string list" string py_float py_float
  | CombineVideoAudio string string string
  | OsRemove string
  | OsPathGetsize string

section \<open>Image discovery\<close>

text \<open>
  \<^verbatim>\<open>find_images(directory)\<close>: one glob per extension pattern, the results concatenated
  and sorted. \<open>find_images_calls\<close> lists the glob calls it makes.
\<close>

definition find_images :: "config \<Rightarrow> world \<Rightarrow> string \<Rightarrow> string list" where
  "find_images cfg w directory =
     sort (concat (map (\<lambda>ext. glob_glob w (os_path_join w directory ext))
                       (IMAGE_EXTENSIONS cfg)))"

definition find_images_calls :: "config \<Rightarrow> world \<Rightarrow> string \<Rightarrow> call list" where
  "find_images_calls cfg w directory =
     map (\<lambda>ext. GlobGlob (os_path_join w directory ext)) (IMAGE_EXTENSIONS cfg)"

section \<open>The orchestrator\<close>

text \<open>
  \<^verbatim>\<open>create_slideshow_with_audio\<close> returns \<^verbatim>\<open>True\<close>, or prints a diagnostic and returns
  \<^verbatim>\<open>False\<close>, or lets an exception of the slide-count computation escape. Each
  \<^verbatim>\<open>return False\<close> of the source is tagged with the failure its diagnostic reports:
  "Directory not found", "No audio files found!", "Audio processing failed!",
  "Slideshow creation failed!", "Final combination failed!".
\<close>

datatype failure =
  DirectoryNotFound | NoAudioFound | AudioMergeFailed | RenderFailed | CombineFailed

datatype outcome = ReturnTrue | ReturnFalse failure | Raise py_error

text \<open>
  The result is the outcome together with the calls made up to it. The dry run converts
  the slide count to float for its estimate \<^verbatim>\<open>slides_needed * avg_duration\<close>. The removal
  of the intermediate video swallows every exception. The size of the final file is only
  printed, and \<^verbatim>\<open>FileNotFoundError\<close> from \<^verbatim>\<open>os.path.getsize\<close> is caught; any other
  exception of it escapes.
\<close>

definition create_slideshow_with_audio ::
  "config \<Rightarrow> world \<Rightarrow> string \<Rightarrow> bool \<Rightarrow> bool \<Rightarrow> py_float \<Rightarrow> py_float
     \<Rightarrow> outcome \<times> call list" where
  "create_slideshow_with_audio cfg w image_dir test_mode dry_run min_duration max_duration =
     (if \<not> os_path_exists w image_dir then (ReturnFalse DirectoryNotFound, [])
      else if dry_run then
        (let audio_files = find_audio_files w image_dir;
             t1 = [FindAudioFiles image_dir] in
         if length audio_files = 0 then (ReturnFalse NoAudioFound, t1)
         else
           (let audio_duration = get_total_audio_duration w audio_files;
                t2 = t1 @ [GetTotalAudioDuration audio_files];
                all_images = find_images cfg w image_dir;
                t3 = t2 @ find_images_calls cfg w image_dir in
            case calculate_slides_needed cfg audio_duration min_duration max_duration test_mode of
              Inl e \<Rightarrow> (Raise e, t3)
            | Inr slides_needed \<Rightarrow>
                (case py_float_of_int slides_needed of
                   Inl e \<Rightarrow> (Raise e, t3)
                 | Inr estimated_duration \<Rightarrow> (ReturnTrue, t3))))
      else
        (let t0 = [PrintFfmpegCapabilities];
             audio_files = find_audio_files w image_dir;
             t1 = t0 @ [FindAudioFiles image_dir] in
         if length audio_files = 0 then (ReturnFalse NoAudioFound, t1)
         else
           (let audio_duration = get_total_audio_duration w audio_files;
                t2 = t1 @ [GetTotalAudioDuration audio_files];
                all_images = find_images cfg w image_dir;
                t3 = t2 @ find_images_calls cfg w image_dir in
            case calculate_slides_needed cfg audio_duration min_duration max_duration test_mode of
              Inl e \<Rightarrow> (Raise e, t3)
            | Inr slides_needed \<Rightarrow>
                (let images = select_images (random_source w) all_images slides_needed test_mode;
                     merged =
                       (if \<not> os_path_exists w (os_path_join w image_dir (AUDIO_OUTPUT cfg))
                        then (merge_audio w audio_files (AUDIO_OUTPUT cfg),
                              t3 @ [MergeAudio audio_files (AUDIO_OUTPUT cfg)])
                        else (True, t3)) in
                 if \<not> fst merged then (ReturnFalse AudioMergeFailed, snd merged)
                 else
                   (let t5 = snd merged @
                          [CreateSlideshow images (VIDEO_OUTPUT cfg) min_duration max_duration] in
                    if \<not> create_slideshow w images (VIDEO_OUTPUT cfg) min_duration max_duration
                    then (ReturnFalse RenderFailed, t5)
                    else
                      (let t6 = t5 @
                             [CombineVideoAudio (VIDEO_OUTPUT cfg) (AUDIO_OUTPUT cfg)
                                (FINAL_OUTPUT cfg)] in
                       if \<not> combine_video_audio w (VIDEO_OUTPUT cfg) (AUDIO_OUTPUT cfg)
                              (FINAL_OUTPUT cfg)
                       then (ReturnFalse CombineFailed, t6)
                       else
                         (let t7 = t6 @ [OsRemove (VIDEO_OUTPUT cfg),
                                         OsPathGetsize (FINAL_OUTPUT cfg)] in
                          case os_path_getsize w (FINAL_OUTPUT cfg) of
                            Inl e \<Rightarrow>
                              if e = FileNotFoundError then (ReturnTrue, t7)
                              else (Raise e, t7)
                          | Inr file_size \<Rightarrow> (ReturnTrue, t7))))))))"

section \<open>A concrete configuration and world\<close>

text \<open>
  Sample values on which the definitions are run: a directory with one audio track of
  25 seconds, two PNG images and an already merged audio file.
\<close>

definition sample_config :: config where
  "sample_config =
     \<lparr>MAX_SLIDES_LIMIT = 1000,
      AUDIO_OUTPUT = ''audio_merged.m4a'',
      VIDEO_OUTPUT = ''slideshow_video.mp4'',
      FINAL_OUTPUT = ''slideshow_with_audio.mp4'',
      IMAGE_EXTENSIONS = [''*.png'', ''*.jpg'']\<rparr>"

definition sample_world :: world where
  "sample_world =
     \<lparr>os_path_exists = (\<lambda>p. p = ''/show'' \<or> p = ''/show/audio_merged.m4a''),
      os_path_join = (\<lambda>a b. a @ ''/'' @ b),
      glob_glob = (\<lambda>pat. if pat = ''/show/*.png'' then [''/show/b.png'', ''/show/a.png''] else []),
      find_audio_files = (\<lambda>d. [''/show/song.mp3'']),
      get_total_audio_duration = (\<lambda>fs. Finite 25),
      merge_audio = (\<lambda>fs out. True),
      create_slideshow = (\<lambda>images out lo hi. True),
      combine_video_audio = (\<lambda>v a out. True),
      os_path_getsize = (\<lambda>p. Inr 1048576),
      random_source = id\<rparr>"

section \<open>Auxiliary facts\<close>

subsection \<open>Rounding\<close>

lemma round_half_even_nonneg: "0 \<le> x \<Longrightarrow> 0 \<le> round_half_even x"
  by (simp add: round_half_even_def Let_def)

lemma max_float_nonneg: "0 \<le> max_float"
proof -
  have "(2::real) ^ 971 \<le> 2 ^ 1024"
    by (rule power_increasing) simp_all
  then show ?thesis by (simp add: max_float_def)
qed

lemma max_float_less_limit: "max_float < of_int int_float_limit"
proof -
  have "(2::real) ^ 970 < 2 ^ 971"
    by (rule power_strict_increasing) simp_all
  then show ?thesis by (simp add: max_float_def int_float_limit_def)
qed

lemma float_ulp_pos: "0 < float_ulp a"
  by (simp add: float_ulp_def)

lemma round64_Finite:
  assumes "round64 x = Finite r"
  obtains m where "0 \<le> m" and "m \<le> max_float" and "r = (if x < 0 then - m else m)"
proof -
  define m where "m = of_int (round_half_even (\<bar>x\<bar> / float_ulp \<bar>x\<bar>)) * float_ulp \<bar>x\<bar>"
  have "0 \<le> \<bar>x\<bar> / float_ulp \<bar>x\<bar>"
    using float_ulp_pos [of "\<bar>x\<bar>"] by simp
  then have "0 \<le> m"
    using float_ulp_pos [of "\<bar>x\<bar>"] by (simp add: m_def round_half_even_nonneg)
  moreover from assms have "m \<le> max_float \<and> r = (if x < 0 then - m else m)"
    by (simp add: round64_def Let_def m_def split: if_splits)
  ultimately show ?thesis using that by blast
qed

lemma round64_nonneg: "0 \<le> x \<Longrightarrow> round64 x = Finite r \<Longrightarrow> 0 \<le> r"
  by (erule round64_Finite) simp

lemma round64_bounded: "round64 x = Finite r \<Longrightarrow> \<bar>r\<bar> \<le> max_float"
  by (erule round64_Finite) (simp split: if_splits)

lemma trunc_abs_le: "\<bar>of_int (if r < 0 then \<lceil>r\<rceil> else \<lfloor>r\<rfloor>) :: real\<bar> \<le> \<bar>r\<bar>"
proof (cases "r < 0")
  case True
  then have "\<lceil>r\<rceil> \<le> 0" by (simp add: ceiling_le_iff)
  moreover have "r \<le> of_int \<lceil>r\<rceil>" by (rule le_of_int_ceiling)
  ultimately show ?thesis using True by simp
next
  case False
  moreover have "of_int \<lfloor>r\<rfloor> \<le> r" by (rule of_int_floor_le)
  ultimately show ?thesis by simp
qed

lemma fl_div_bounded: "fl_div x y = Finite r \<Longrightarrow> \<bar>r\<bar> \<le> max_float"
  by (cases x; cases y) (auto simp: round64_bounded max_float_nonneg split: if_splits)

lemma py_int_fits:
  assumes "py_int (fl_div x y) = Inr n"
  shows "\<bar>n\<bar> < int_float_limit"
proof -
  from assms obtain r where r: "fl_div x y = Finite r" and n: "n = (if r < 0 then \<lceil>r\<rceil> else \<lfloor>r\<rfloor>)"
    by (cases "fl_div x y") auto
  have "\<bar>of_int n :: real\<bar> \<le> \<bar>r\<bar>"
    unfolding n by (rule trunc_abs_le)
  also have "\<dots> \<le> max_float" using r by (rule fl_div_bounded)
  also have "\<dots> < of_int int_float_limit" by (rule max_float_less_limit)
  finally have "(of_int \<bar>n\<bar> :: real) < of_int int_float_limit" by simp
  then show ?thesis by (simp only: of_int_less_iff)
qed

lemma calculate_slides_needed_fits:
  "calculate_slides_needed cfg audio_duration min_duration max_duration test_mode = Inr n \<Longrightarrow>
   \<exists>x. py_float_of_int n = Inr x"
  by (auto simp: calculate_slides_needed_def py_truediv_def py_float_of_int_def Let_def py_int_fits
           split: if_splits sum.splits)

lemma two_powi_mono: "i \<le> j \<Longrightarrow> (2::real) powi i \<le> 2 powi j"
  by (rule power_int_increasing) simp_all

lemma two_powi_strict_mono: "i < j \<Longrightarrow> (2::real) powi i < 2 powi j"
  by (rule power_int_strict_increasing) simp_all

lemma two_powi_succ: "(2::real) powi (e + 1) = 2 powi e * 2"
  by (simp add: power_int_add)

lemma two_powi_pred: "(2::real) powi (e - 1) = 2 powi e / 2"
  by (simp add: power_int_diff)

lemma overflow_bound_powi: "overflow_bound = 2 powi 1024"
  by (simp add: overflow_bound_def)

lemma min_normal_powi: "min_normal = 2 powi (- 1022)"
  by (simp add: min_normal_def power_int_minus_divide)

lemma max_float_ge: "2 powi 1023 \<le> max_float"
proof -
  have "(2::real) powi 1024 = 2 powi 1023 * 2"
    using two_powi_succ [of 1023] by simp
  moreover have "(2::real) powi 971 \<le> 2 powi 1023"
    by (rule two_powi_mono) simp
  moreover have "max_float = 2 powi 1024 - 2 powi 971"
    by (simp add: max_float_def)
  ultimately show ?thesis by linarith
qed

lemma ilog2_eqI: "2 powi e \<le> a \<Longrightarrow> a < 2 powi (e + 1) \<Longrightarrow> ilog2 a = e"
proof (induction a arbitrary: e rule: ilog2.induct)
  case (1 a)
  have pos: "0 < a"
    using "1.prems"(1) by (rule less_le_trans [rotated]) simp
  show ?case
  proof (cases "2 \<le> a")
    case True
    have "2 powi (e - 1) \<le> a / 2" and "a / 2 < 2 powi (e - 1 + 1)"
      using "1.prems" by (simp_all add: two_powi_pred two_powi_succ)
    then have "ilog2 (a / 2) = e - 1"
      using "1.IH"(1) pos True by simp
    then show ?thesis
      using pos True by (subst ilog2.simps) simp
  next
    case False
    show ?thesis
    proof (cases "a < 1")
      case True
      have "(2::real) powi (e + 1 + 1) = 2 powi e * 2 * 2"
        by (simp only: two_powi_succ)
      then have "2 powi (e + 1) \<le> a * 2" and "a * 2 < 2 powi (e + 1 + 1)"
        using "1.prems" by (simp_all only: two_powi_succ)
      then have "ilog2 (a * 2) = e + 1"
        using "1.IH"(2) pos False True by simp
      then show ?thesis
        using pos False True by (subst ilog2.simps) simp
    next
      case ge: False
      have "(2::real) powi e < 2 powi 1"
        using "1.prems"(1) False by simp
      then have "e < 1"
        by (metis two_powi_mono not_le)
      moreover have "(2::real) powi 0 < 2 powi (e + 1)"
        using "1.prems"(2) ge by simp
      then have "0 < e + 1"
        by (metis two_powi_mono not_le)
      ultimately have "e = 0" by simp
      then show ?thesis
        using pos False ge by (subst ilog2.simps) simp
    qed
  qed
qed

lemma round_half_even_le: "x < of_int n \<Longrightarrow> round_half_even x \<le> n"
proof -
  assume "x < of_int n"
  then have "\<lfloor>x\<rfloor> < n" by (simp add: floor_less_iff)
  then show ?thesis by (simp add: round_half_even_def Let_def)
qed

lemma round_half_even_of_int: "round_half_even (of_int n) = n"
  by (simp add: round_half_even_def)

lemma round64_normal:
  assumes lo: "2 powi e \<le> \<bar>x\<bar>" and hi: "\<bar>x\<bar> < 2 powi (e + 1)"
    and e1: "- 1022 \<le> e" and e2: "e \<le> 1022"
  shows "round64 x =
           Finite (if x < 0 then - (of_int (round_half_even (\<bar>x\<bar> / 2 powi (e - 52))) * 2 powi (e - 52))
                   else of_int (round_half_even (\<bar>x\<bar> / 2 powi (e - 52))) * 2 powi (e - 52))"
proof -
  define ulp :: real where "ulp = 2 powi (e - 52)"
  have ulp_pos: "0 < ulp" by (simp add: ulp_def)
  have "(2::real) powi (e + 1) \<le> 2 powi 1023"
    using e2 by (intro two_powi_mono) simp
  also have "\<dots> < 2 powi 1024"
    by (rule two_powi_strict_mono) simp
  finally have no_overflow: "\<not> overflow_bound \<le> \<bar>x\<bar>"
    using hi by (simp only: overflow_bound_powi)
  have "(2::real) powi (- 1022) \<le> 2 powi e"
    using e1 by (rule two_powi_mono)
  then have normal: "\<not> \<bar>x\<bar> < min_normal"
    using lo by (simp only: min_normal_powi)
  have ulp: "float_ulp \<bar>x\<bar> = ulp"
    using normal ilog2_eqI [OF lo hi] by (simp add: float_ulp_def ulp_def)
  have split: "(2::real) powi (e + 1) = ulp * of_int (2 ^ 53)"
  proof -
    have "(2::real) powi (e + 1) = 2 powi (e - 52 + 53)"
      by (rule arg_cong [where f = "\<lambda>k. 2 powi k"]) simp
    also have "\<dots> = 2 powi (e - 52) * 2 powi 53" by (rule power_int_add) simp
    finally show ?thesis by (simp add: ulp_def)
  qed
  have "\<bar>x\<bar> / ulp < of_int (2 ^ 53)"
    using hi ulp_pos unfolding split by (simp add: field_simps)
  then have "round_half_even (\<bar>x\<bar> / ulp) \<le> 2 ^ 53"
    by (rule round_half_even_le)
  then have "(of_int (round_half_even (\<bar>x\<bar> / ulp)) :: real) \<le> of_int (2 ^ 53)"
    by (simp only: of_int_le_iff)
  then have "of_int (round_half_even (\<bar>x\<bar> / ulp)) * ulp \<le> ulp * of_int (2 ^ 53)"
    using ulp_pos by (simp add: mult.commute)
  also have "\<dots> \<le> max_float"
    unfolding split [symmetric]
    using \<open>(2::real) powi (e + 1) \<le> 2 powi 1023\<close> max_float_ge by linarith
  finally have "\<not> max_float < of_int (round_half_even (\<bar>x\<bar> / ulp)) * ulp"
    by simp
  then show ?thesis
    using no_overflow ulp by (simp add: round64_def Let_def ulp_def)
qed

lemma round64_subnormal:
  assumes "\<bar>x\<bar> < min_normal"
  shows "round64 x =
           Finite (if x < 0 then - (of_int (round_half_even (\<bar>x\<bar> / 2 powi (- 1074))) * 2 powi (- 1074))
                   else of_int (round_half_even (\<bar>x\<bar> / 2 powi (- 1074))) * 2 powi (- 1074))"
proof -
  define ulp :: real where "ulp = 2 powi (- 1074)"
  have ulp_pos: "0 < ulp" by (simp only: ulp_def zero_less_power_int zero_less_numeral)
  have "(2::real) powi (- 1022) < 2 powi 1024"
    by (rule two_powi_strict_mono) simp
  then have no_overflow: "\<not> overflow_bound \<le> \<bar>x\<bar>"
    using assms by (simp only: overflow_bound_powi min_normal_powi)
  have ulp: "float_ulp \<bar>x\<bar> = ulp"
    using assms by (simp only: float_ulp_def ulp_def if_True) simp
  have split: "(2::real) powi (- 1022) = ulp * of_int (2 ^ 52)"
  proof -
    have "(2::real) powi (- 1022) = 2 powi (- 1074 + 52)"
      by (rule arg_cong [where f = "\<lambda>k. 2 powi k"]) simp
    also have "\<dots> = 2 powi (- 1074) * 2 powi 52" by (rule power_int_add) simp
    finally show ?thesis by (simp only: ulp_def power_int_numeral of_int_power of_int_numeral)
  qed
  have "\<bar>x\<bar> / ulp < of_int (2 ^ 52)"
    using assms ulp_pos unfolding min_normal_powi split by (simp add: field_simps)
  then have "round_half_even (\<bar>x\<bar> / ulp) \<le> 2 ^ 52"
    by (rule round_half_even_le)
  then have "(of_int (round_half_even (\<bar>x\<bar> / ulp)) :: real) \<le> of_int (2 ^ 52)"
    by (simp only: of_int_le_iff)
  then have "of_int (round_half_even (\<bar>x\<bar> / ulp)) * ulp \<le> ulp * of_int (2 ^ 52)"
    using ulp_pos by (simp add: mult.commute)
  also have "\<dots> \<le> 2 powi 1023"
    unfolding split [symmetric] by (rule two_powi_mono) simp
  also have "\<dots> \<le> max_float" by (rule max_float_ge)
  finally have "\<not> max_float < of_int (round_half_even (\<bar>x\<bar> / ulp)) * ulp"
    by simp
  then show ?thesis
    using no_overflow ulp unfolding round64_def Let_def ulp_def by (simp only: if_False)
qed

lemma round64_overflow: "overflow_bound \<le> x \<Longrightarrow> round64 x = PosInf"
proof -
  assume a: "overflow_bound \<le> x"
  have "0 < overflow_bound" by (simp only: overflow_bound_powi zero_less_power_int zero_less_numeral)
  with a have "0 < x" by linarith
  with a show ?thesis by (simp add: round64_def)
qed

lemma round_half_even_numeral:
  "round_half_even (numeral p / numeral q) =
     (let f = numeral p div numeral q; r = numeral p mod numeral q :: int in
      if 2 * r < numeral q then f
      else if numeral q < 2 * r then f + 1
      else if even f then f else f + 1)"
proof -
  define P :: int where "P = numeral p"
  define Q :: int where "Q = numeral q"
  have Q: "0 < Q" by (simp add: Q_def)
  have fl: "\<lfloor>(of_int P :: real) / of_int Q\<rfloor> = P div Q"
    by (simp add: floor_divide_of_int_eq)
  have "(of_int P :: real) = of_int (P div Q) * of_int Q + of_int (P mod Q)"
    by (metis of_int_add of_int_mult div_mult_mod_eq)
  then have fr: "(of_int P :: real) / of_int Q - of_int (P div Q) = of_int (P mod Q) / of_int Q"
    using Q by (simp add: field_simps)
  have half1: "(of_int (P mod Q) :: real) / of_int Q < 1 / 2 \<longleftrightarrow> 2 * (P mod Q) < Q"
  proof -
    have "(of_int (P mod Q) :: real) / of_int Q < 1 / 2 \<longleftrightarrow> (of_int (2 * (P mod Q)) :: real) < of_int Q"
      using Q by (simp add: field_simps)
    then show ?thesis by (simp only: of_int_less_iff)
  qed
  have half2: "1 / 2 < (of_int (P mod Q) :: real) / of_int Q \<longleftrightarrow> Q < 2 * (P mod Q)"
  proof -
    have "1 / 2 < (of_int (P mod Q) :: real) / of_int Q \<longleftrightarrow> (of_int Q :: real) < of_int (2 * (P mod Q))"
      using Q by (simp add: field_simps)
    then show ?thesis by (simp only: of_int_less_iff)
  qed
  have "round_half_even (of_int P / of_int Q) =
     (let f = P div Q; r = P mod Q in
      if 2 * r < Q then f
      else if Q < 2 * r then f + 1
      else if even f then f else f + 1)"
    unfolding round_half_even_def Let_def fl fr half1 half2 ..
  then show ?thesis by (simp only: P_def Q_def of_int_numeral)
qed

lemma round_half_even_numeral_int: "round_half_even (numeral n) = numeral n"
  using round_half_even_of_int [of "numeral n"] by simp

lemma py_float_of_int_small:
  "\<bar>n\<bar> \<le> 2 ^ 1023 \<Longrightarrow> py_float_of_int n = Inr (round64 (of_int n))"
proof -
  assume "\<bar>n\<bar> \<le> 2 ^ 1023"
  moreover have "(2::int) ^ 970 < 2 ^ 1023"
    by (rule power_strict_increasing) simp_all
  moreover have "(2::int) ^ 1024 = 2 * 2 ^ 1023"
    by (simp only: power_Suc [symmetric]) simp
  ultimately have "\<bar>n\<bar> < int_float_limit"
    unfolding int_float_limit_def by linarith
  then show ?thesis by (simp add: py_float_of_int_def)
qed

lemma round64_zero: "round64 0 = Finite 0"
proof -
  have "\<bar>0::real\<bar> < min_normal"
    by (simp only: min_normal_powi abs_zero zero_less_power_int zero_less_numeral)
  from round64_subnormal [OF this] show ?thesis
    by (simp add: round_half_even_of_int [of 0, simplified])
qed

lemma round64_two_powi:
  assumes "- 1074 \<le> j" and "j \<le> 1022"
  shows "round64 (2 powi j) = Finite (2 powi j)"
proof (cases "j < - 1022")
  case True
  have pos: "\<bar>(2::real) powi j\<bar> = 2 powi j" by simp
  have "(2::real) powi j < min_normal"
    unfolding min_normal_powi using True by (rule two_powi_strict_mono)
  then have sub: "\<bar>(2::real) powi j\<bar> < min_normal" by (simp only: pos)
  have "(2::real) powi j / 2 powi (- 1074) = 2 powi (j - (- 1074))"
    by (rule power_int_diff [symmetric]) simp
  also have "\<dots> = 2 ^ nat (j + 1074)"
    using assms(1) by (simp add: power_int_def)
  also have "\<dots> = of_int (2 ^ nat (j + 1074))" by simp
  finally have q: "(2::real) powi j / 2 powi (- 1074) = of_int (2 ^ nat (j + 1074))" .
  have restore: "real_of_int (2 ^ nat (j + 1074)) * 2 powi (- 1074) = 2 powi j"
    using q by (simp add: field_simps)
  have neg: "\<not> (2::real) powi j < 0" by (simp add: not_less)
  show ?thesis
    using round64_subnormal [OF sub]
    by (simp only: pos q round_half_even_of_int restore neg if_False)
next
  case False
  have pos: "\<bar>(2::real) powi j\<bar> = 2 powi j" by simp
  have lo: "2 powi j \<le> \<bar>(2::real) powi j\<bar>" by simp
  have hi: "\<bar>(2::real) powi j\<bar> < 2 powi (j + 1)"
    unfolding pos by (rule two_powi_strict_mono) simp
  have "(2::real) powi j / 2 powi (j - 52) = 2 powi (j - (j - 52))"
    by (rule power_int_diff [symmetric]) simp
  also have "\<dots> = of_int (2 ^ 52)" by simp
  finally have q: "(2::real) powi j / 2 powi (j - 52) = of_int (2 ^ 52)" .
  have restore: "real_of_int (2 ^ 52) * 2 powi (j - 52) = 2 powi j"
    using q by (simp add: field_simps)
  have neg: "\<not> (2::real) powi j < 0" by (simp add: not_less)
  show ?thesis
    using round64_normal [OF lo hi] False assms(2)
    by (simp only: pos q round_half_even_of_int restore neg if_False not_less simp_thms)
qed

text \<open>The average of the range whose two ends are the same small power of two.\<close>

lemma average_two_powi:
  assumes "- 1074 \<le> k" and "k \<le> 1021"
  shows "fl_div (fl_add (Finite (2 powi k)) (Finite (2 powi k))) (Finite 2) = Finite (2 powi k)"
proof -
  have "(2::real) powi k + 2 powi k = 2 powi (k + 1)"
    by (simp add: two_powi_succ)
  then have "fl_add (Finite (2 powi k)) (Finite (2 powi k)) = Finite (2 powi (k + 1))"
    using round64_two_powi [of "k + 1"] assms by simp
  moreover have "(2::real) powi (k + 1) / 2 = 2 powi k"
    by (simp add: two_powi_succ)
  ultimately show ?thesis
    using round64_two_powi [of k] assms by simp
qed

lemma quotient_overflows:
  assumes "1 \<le> x" and "k \<le> - 1024"
  shows "fl_div (Finite x) (Finite (2 powi k)) = PosInf"
proof -
  have "(2::real) powi 1024 \<le> 2 powi (- k)"
    using assms(2) by (intro two_powi_mono) simp
  also have "\<dots> = 1 / 2 powi k"
    by (simp add: power_int_minus_divide)
  also have "\<dots> \<le> x / 2 powi k"
    using assms(1) by (simp add: divide_right_mono)
  finally have "overflow_bound \<le> x / 2 powi k"
    by (simp only: overflow_bound_powi)
  then have "round64 (x / 2 powi k) = PosInf"
    by (rule round64_overflow)
  then show ?thesis by simp
qed

lemma tiny_range_overflows:
  assumes "- 1074 \<le> k" and "k \<le> - 1024" and "1 \<le> x"
  shows "calculate_slides_needed cfg (Finite x) (Finite (2 powi k)) (Finite (2 powi k)) test_mode
           = Inl OverflowError"
proof -
  have avg: "fl_div (fl_add (Finite (2 powi k)) (Finite (2 powi k))) (Finite 2) = Finite (2 powi k)"
    using assms by (intro average_two_powi) simp_all
  have nz: "Finite ((2::real) powi k) \<noteq> Finite 0" by simp
  have "fl_div (Finite 60) (Finite (2 powi k)) = PosInf"
    using assms(2) by (intro quotient_overflows) simp_all
  moreover have "fl_div (Finite x) (Finite (2 powi k)) = PosInf"
    using assms by (intro quotient_overflows)
  ultimately show ?thesis
    unfolding calculate_slides_needed_def py_truediv_def Let_def avg
    by (simp add: nz)
qed

subsection \<open>The slide count on floats\<close>

lemma int_float_limit_pos: "0 \<le> n \<Longrightarrow> - int_float_limit < n"
proof -
  have "(2::int) ^ 970 < 2 ^ 1024"
    by (rule power_strict_increasing) simp_all
  then have "0 < int_float_limit" by (simp add: int_float_limit_def)
  then show "0 \<le> n \<Longrightarrow> - int_float_limit < n" by simp
qed

lemma full_mode_finite:
  assumes d: "0 \<le> d"
    and avg: "fl_div (fl_add min_duration max_duration) (Finite 2) = Finite a" and a: "0 < a"
    and q: "fl_div (Finite d) (Finite a) = Finite q"
  shows "calculate_slides_needed cfg (Finite d) min_duration max_duration False =
           (if - int_float_limit < MAX_SLIDES_LIMIT cfg
            then Inr (min \<lfloor>q\<rfloor> (MAX_SLIDES_LIMIT cfg))
            else Inl OverflowError)"
proof -
  have "round64 (d / a) = Finite q" using q a by simp
  moreover have "0 \<le> d / a" using d a by simp
  ultimately have q0: "0 \<le> q" by (rule round64_nonneg [rotated])
  define n where "n = \<lfloor>q\<rfloor>"
  have n0: "0 \<le> n" using q0 by (simp add: n_def)
  have "py_int (fl_div (Finite d) (Finite a)) = Inr n"
    using q q0 by (simp add: n_def)
  then have fit: "\<bar>n\<bar> < int_float_limit" by (rule py_int_fits)
  have nz: "Finite a \<noteq> Finite 0" using a by simp
  have "calculate_slides_needed cfg (Finite d) min_duration max_duration False =
          (case py_float_of_int (if n > MAX_SLIDES_LIMIT cfg then MAX_SLIDES_LIMIT cfg else n) of
             Inl e \<Rightarrow> Inl e
           | Inr minutes \<Rightarrow> Inr (if n > MAX_SLIDES_LIMIT cfg then MAX_SLIDES_LIMIT cfg else n))"
    unfolding calculate_slides_needed_def py_truediv_def Let_def avg n_def
    using q q0 nz by simp
  also have "\<dots> = (if - int_float_limit < MAX_SLIDES_LIMIT cfg
                     then Inr (min n (MAX_SLIDES_LIMIT cfg))
                     else Inl OverflowError)"
    using n0 fit by (auto simp: py_float_of_int_def min_def)
  finally show ?thesis by (simp only: n_def)
qed

lemma full_mode_overflow:
  assumes "fl_div (fl_add min_duration max_duration) (Finite 2) = Finite a" and "a \<noteq> 0"
    and "fl_div (Finite d) (Finite a) = PosInf"
  shows "calculate_slides_needed cfg (Finite d) min_duration max_duration False = Inl OverflowError"
  using assms by (simp add: calculate_slides_needed_def py_truediv_def)

lemma test_mode_finite:
  assumes avg: "fl_div (fl_add min_duration max_duration) (Finite 2) = Finite a" and a: "0 < a"
    and q: "fl_div (Finite 60) (Finite a) = Finite q"
  shows "calculate_slides_needed cfg audio_duration min_duration max_duration True = Inr \<lfloor>q\<rfloor>"
proof -
  have "round64 (60 / a) = Finite q" using q a by simp
  moreover have "0 \<le> 60 / a" using a by simp
  ultimately have "0 \<le> q" by (rule round64_nonneg [rotated])
  then show ?thesis
    using avg a q by (simp add: calculate_slides_needed_def py_truediv_def)
qed

lemma test_mode_overflow:
  assumes "fl_div (fl_add min_duration max_duration) (Finite 2) = Finite a" and "a \<noteq> 0"
    and "fl_div (Finite 60) (Finite a) = PosInf"
  shows "calculate_slides_needed cfg audio_duration min_duration max_duration True = Inl OverflowError"
  using assms by (simp add: calculate_slides_needed_def py_truediv_def)

lemma full_mode_capped:
  "calculate_slides_needed cfg audio_duration min_duration max_duration False = Inr n \<Longrightarrow>
   n \<le> MAX_SLIDES_LIMIT cfg"
  by (auto simp: calculate_slides_needed_def py_truediv_def Let_def split: if_splits sum.splits)

text \<open>The floats written \<^verbatim>\<open>0.1\<close>, \<^verbatim>\<open>0.3\<close>, \<^verbatim>\<open>0.01\<close>, \<^verbatim>\<open>0.05\<close>, \<^verbatim>\<open>0.07\<close>, and sums and quotients of them.\<close>

lemma float_0_1: "round64 (1 / 10) = Finite (3602879701896397 / 36028797018963968)"
  using round64_normal [of "- 4" "1 / 10"] by (simp add: round_half_even_numeral)

lemma float_0_3: "round64 (3 / 10) = Finite (5404319552844595 / 18014398509481984)"
  using round64_normal [of "- 2" "3 / 10"] by (simp add: round_half_even_numeral)

lemma float_0_01: "round64 (1 / 100) = Finite (5764607523034235 / 576460752303423488)"
  using round64_normal [of "- 7" "1 / 100"] by (simp add: round_half_even_numeral)

lemma float_0_05: "round64 (1 / 20) = Finite (3602879701896397 / 72057594037927936)"
  using round64_normal [of "- 5" "1 / 20"] by (simp add: round_half_even_numeral)

lemma float_0_07: "round64 (7 / 100) = Finite (1261007895663739 / 18014398509481984)"
  using round64_normal [of "- 4" "7 / 100"] by (simp add: round_half_even_numeral)

lemma average_0_1:
  "fl_div (fl_add (round64 (1 / 10)) (round64 (1 / 10))) (Finite 2)
     = Finite (3602879701896397 / 36028797018963968)"
proof -
  have "round64 (3602879701896397 / 18014398509481984)
          = Finite (3602879701896397 / 18014398509481984)"
    using round64_normal [of "- 3" "3602879701896397 / 18014398509481984"]
    by (simp add: round_half_even_numeral_int)
  moreover have "round64 (3602879701896397 / 36028797018963968)
          = Finite (3602879701896397 / 36028797018963968)"
    using round64_normal [of "- 4" "3602879701896397 / 36028797018963968"]
    by (simp add: round_half_even_numeral_int)
  ultimately show ?thesis by (simp add: float_0_1)
qed

lemma average_0_01:
  "fl_div (fl_add (round64 (1 / 100)) (round64 (1 / 100))) (Finite 2)
     = Finite (5764607523034235 / 576460752303423488)"
proof -
  have "round64 (5764607523034235 / 288230376151711744)
          = Finite (5764607523034235 / 288230376151711744)"
    using round64_normal [of "- 6" "5764607523034235 / 288230376151711744"]
    by (simp add: round_half_even_numeral_int)
  moreover have "round64 (5764607523034235 / 576460752303423488)
          = Finite (5764607523034235 / 576460752303423488)"
    using round64_normal [of "- 7" "5764607523034235 / 576460752303423488"]
    by (simp add: round_half_even_numeral_int)
  ultimately show ?thesis by (simp add: float_0_01)
qed

lemma average_0_05_0_07:
  "fl_div (fl_add (round64 (1 / 20)) (round64 (7 / 100))) (Finite 2)
     = Finite (8646911284551353 / 144115188075855872)"
proof -
  have "round64 (8646911284551353 / 72057594037927936)
          = Finite (8646911284551353 / 72057594037927936)"
    using round64_normal [of "- 4" "8646911284551353 / 72057594037927936"]
    by (simp add: round_half_even_numeral_int)
  moreover have "round64 (8646911284551353 / 144115188075855872)
          = Finite (8646911284551353 / 144115188075855872)"
    using round64_normal [of "- 5" "8646911284551353 / 144115188075855872"]
    by (simp add: round_half_even_numeral_int)
  ultimately show ?thesis by (simp add: float_0_05 float_0_07)
qed

lemma quotient_0_3_0_1:
  "fl_div (Finite (5404319552844595 / 18014398509481984))
          (Finite (3602879701896397 / 36028797018963968))
     = Finite (6755399441055743 / 2251799813685248)"
  using round64_normal [of 1 "(5404319552844595 / 18014398509481984)
                               / (3602879701896397 / 36028797018963968)"]
  by (simp add: round_half_even_numeral)

lemma quotient_1_0_1:
  "fl_div (Finite 1) (Finite (3602879701896397 / 36028797018963968)) = Finite 10"
  using round64_normal [of 3 "1 / (3602879701896397 / 36028797018963968)"]
  by (simp add: round_half_even_numeral)

lemma quotient_60_0_01:
  "fl_div (Finite 60) (Finite (5764607523034235 / 576460752303423488)) = Finite 6000"
  using round64_normal [of 12 "60 / (5764607523034235 / 576460752303423488)"]
  by (simp add: round_half_even_numeral)

lemma quotient_60_0_06:
  "fl_div (Finite 60) (Finite (8646911284551353 / 144115188075855872))
     = Finite (8796093022207999 / 8796093022208)"
  using round64_normal [of 9 "60 / (8646911284551353 / 144115188075855872)"]
  by (simp add: round_half_even_numeral)

lemma average_3_7: "fl_div (fl_add (Finite 3) (Finite 7)) (Finite 2) = Finite 5"
proof -
  have "round64 10 = Finite 10"
    using round64_normal [of 3 10] by (simp add: round_half_even_numeral_int)
  moreover have "round64 5 = Finite 5"
    using round64_normal [of 2 5] by (simp add: round_half_even_numeral_int)
  ultimately show ?thesis by simp
qed

lemma quotient_5: "fl_div (Finite 25) (Finite 5) = Finite 5"
  using round64_normal [of 2 5] by (simp add: round_half_even_numeral_int)

lemma quotient_20000: "fl_div (Finite 100000) (Finite 5) = Finite 20000"
  using round64_normal [of 14 20000] by (simp add: round_half_even_numeral_int)

lemma quotient_minus: "fl_div (Finite (- 1)) (Finite 5) = Finite (- (3602879701896397 / 18014398509481984))"
  using round64_normal [of "- 3" "- 1 / 5"] by (simp add: round_half_even_numeral)

subsection \<open>Slices and the repeat loop\<close>

lemma py_slice_to_nonneg: "0 \<le> n \<Longrightarrow> py_slice_to xs n = take (nat n) xs"
  by (simp add: py_slice_to_def)

text \<open>The repeat loop appends one draw per iteration, numbered from the loop index.\<close>

lemma add_repeats_eq:
  "add_repeats rng all_images i k images =
     images @ map (\<lambda>j. random_choice rng j all_images) [i..<i + k]"
proof (induction k arbitrary: i images)
  case 0
  show ?case by simp
next
  case (Suc k)
  have "[i..<i + Suc k] = i # [Suc i..<Suc i + k]"
    by (simp add: upt_conv_Cons)
  with Suc show ?case by simp
qed

lemma random_choice_mem: "seq \<noteq> [] \<Longrightarrow> random_choice rng i seq \<in> set seq"
  by (simp add: random_choice_def)

lemma select_images_full_eq:
  "all_images \<noteq> [] \<Longrightarrow>
   select_images rng all_images n False =
     all_images @ map (\<lambda>j. random_choice rng j all_images)
                      [0..<nat (n - int (length all_images))]"
  by (simp add: select_images_def add_repeats_eq Let_def)

subsection \<open>The dry run\<close>

lemma dry_run_result:
  "create_slideshow_with_audio cfg w image_dir test_mode True min_duration max_duration =
     (if \<not> os_path_exists w image_dir then (ReturnFalse DirectoryNotFound, [])
      else if find_audio_files w image_dir = []
      then (ReturnFalse NoAudioFound, [FindAudioFiles image_dir])
      else
        (case calculate_slides_needed cfg
                (get_total_audio_duration w (find_audio_files w image_dir))
                min_duration max_duration test_mode of
           Inl e \<Rightarrow> Raise e
         | Inr slides_needed \<Rightarrow> ReturnTrue,
         [FindAudioFiles image_dir, GetTotalAudioDuration (find_audio_files w image_dir)]
         @ map (\<lambda>ext. GlobGlob (os_path_join w image_dir ext)) (IMAGE_EXTENSIONS cfg)))"
proof (cases "calculate_slides_needed cfg
                (get_total_audio_duration w (find_audio_files w image_dir))
                min_duration max_duration test_mode")
  case (Inl e)
  then show ?thesis
    by (simp add: create_slideshow_with_audio_def find_images_calls_def Let_def)
next
  case (Inr n)
  from calculate_slides_needed_fits [OF Inr] obtain x where "py_float_of_int n = Inr x" ..
  with Inr show ?thesis
    by (simp add: create_slideshow_with_audio_def find_images_calls_def Let_def)
qed

section \<open>Slide count: properties\<close>

text \<open>
  C1, as stated: in full mode, for every audio duration and every duration range with
  positive average, the slide count is the floor of the audio duration divided by the
  average, limited to \<open>MAX_SLIDES_LIMIT\<close>. It is not. For the range
  (\<open>2 ^ -1030\<close>, \<open>2 ^ -1030\<close>) and 100 seconds of audio the quotient is infinite and
  \<^verbatim>\<open>int\<close> raises \<^verbatim>\<open>OverflowError\<close>; for an audio duration of -1 and the range (3, 7) the
  count is 0, \<^verbatim>\<open>int\<close> truncating towards zero, where the floor is -1; and for one second
  of audio and the range (0.1, 0.1) the count is 10, the quotient being rounded, where the
  floor of the exact quotient of the same floats is 9.
\<close>

theorem full_mode_slide_count_counterexample:
  "calculate_slides_needed sample_config (Finite 100)
     (Finite (2 powi (- 1030))) (Finite (2 powi (- 1030))) False = Inl OverflowError
   \<and> calculate_slides_needed sample_config (Finite (- 1)) (Finite 3) (Finite 7) False = Inr 0
   \<and> \<lfloor>(- 1 :: real) / ((3 + 7) / 2)\<rfloor> = - 1
   \<and> round64 (1 / 10) = Finite (3602879701896397 / 36028797018963968)
   \<and> calculate_slides_needed sample_config (Finite 1) (round64 (1 / 10)) (round64 (1 / 10)) False
       = Inr 10
   \<and> \<lfloor>(1 :: real) / ((3602879701896397 / 36028797018963968
                         + 3602879701896397 / 36028797018963968) / 2)\<rfloor> = 9"
proof -
  have c1: "calculate_slides_needed sample_config (Finite 100)
     (Finite (2 powi (- 1030))) (Finite (2 powi (- 1030))) False = Inl OverflowError"
    by (rule tiny_range_overflows) simp_all
  have small: "py_float_of_int 0 = Inr (round64 0)" "py_float_of_int 10 = Inr (round64 10)"
    using py_float_of_int_small [of 0] py_float_of_int_small [of 10] by simp_all
  have c2: "calculate_slides_needed sample_config (Finite (- 1)) (Finite 3) (Finite 7) False = Inr 0"
    using average_3_7 quotient_minus small
    by (simp add: calculate_slides_needed_def py_truediv_def sample_config_def)
  have c3: "calculate_slides_needed sample_config (Finite 1) (round64 (1 / 10)) (round64 (1 / 10)) False
       = Inr 10"
    using average_0_1 quotient_1_0_1 small
    by (simp add: calculate_slides_needed_def py_truediv_def sample_config_def)
  have c4: "\<lfloor>(- 1 :: real) / ((3 + 7) / 2)\<rfloor> = - 1" by simp
  have c5: "\<lfloor>(1 :: real) / ((3602879701896397 / 36028797018963968
                         + 3602879701896397 / 36028797018963968) / 2)\<rfloor> = 9" by simp
  show ?thesis
    using c1 c2 c3 c4 c5 float_0_1 by (intro conjI)
qed

text \<open>
  C1, amended. In full mode, for a finite audio duration \<open>d \<ge> 0\<close> and a duration range
  whose float average \<open>a\<close> (the sum rounded, then halved) is finite and positive: if the
  float quotient \<open>q\<close> of \<open>d\<close> by \<open>a\<close> is finite, the slide count is the floor of \<open>q\<close>,
  limited to \<open>MAX_SLIDES_LIMIT\<close> (for a limit so far below zero that it has no float,
  \<^verbatim>\<open>OverflowError\<close> instead); if the quotient overflows to infinity, \<^verbatim>\<open>OverflowError\<close> is
  raised. Whatever the input, a slide count returned in full mode never exceeds
  \<open>MAX_SLIDES_LIMIT\<close>.
\<close>

theorem full_mode_slide_count:
  "(0 \<le> d \<longrightarrow> fl_div (fl_add min_duration max_duration) (Finite 2) = Finite a \<longrightarrow> 0 < a \<longrightarrow>
      fl_div (Finite d) (Finite a) = Finite q \<longrightarrow>
      calculate_slides_needed cfg (Finite d) min_duration max_duration False =
        (if - int_float_limit < MAX_SLIDES_LIMIT cfg
         then Inr (min \<lfloor>q\<rfloor> (MAX_SLIDES_LIMIT cfg))
         else Inl OverflowError))
   \<and> (fl_div (fl_add min_duration max_duration) (Finite 2) = Finite a \<longrightarrow> 0 < a \<longrightarrow>
      fl_div (Finite d) (Finite a) = PosInf \<longrightarrow>
      calculate_slides_needed cfg (Finite d) min_duration max_duration False = Inl OverflowError)
   \<and> (calculate_slides_needed cfg audio_duration min_duration max_duration False = Inr n \<longrightarrow>
      n \<le> MAX_SLIDES_LIMIT cfg)"
  using full_mode_finite [of d min_duration max_duration a q cfg]
        full_mode_overflow [of min_duration max_duration a d cfg]
        full_mode_capped [of cfg audio_duration min_duration max_duration n]
  by simp

theorem full_mode_slide_count_witness:
  "(0::real) \<le> 5404319552844595 / 18014398509481984
   \<and> fl_div (fl_add (round64 (1 / 10)) (round64 (1 / 10))) (Finite 2)
       = Finite (3602879701896397 / 36028797018963968)
   \<and> (0::real) < 3602879701896397 / 36028797018963968
   \<and> fl_div (Finite (5404319552844595 / 18014398509481984))
             (Finite (3602879701896397 / 36028797018963968))
       = Finite (6755399441055743 / 2251799813685248)
   \<and> calculate_slides_needed sample_config (Finite (5404319552844595 / 18014398509481984))
        (round64 (1 / 10)) (round64 (1 / 10)) False = Inr 2
   \<and> calculate_slides_needed sample_config (Finite 100000) (Finite 3) (Finite 7) False = Inr 1000
   \<and> 1000 \<le> MAX_SLIDES_LIMIT sample_config
   \<and> fl_div (fl_add (Finite (2 powi (- 1030))) (Finite (2 powi (- 1030)))) (Finite 2)
       = Finite (2 powi (- 1030))
   \<and> fl_div (Finite 100) (Finite (2 powi (- 1030))) = PosInf
   \<and> calculate_slides_needed sample_config (Finite 100)
        (Finite (2 powi (- 1030))) (Finite (2 powi (- 1030))) False = Inl OverflowError"
proof -
  have tiny: "fl_div (fl_add (Finite (2 powi (- 1030))) (Finite (2 powi (- 1030)))) (Finite 2)
                = Finite (2 powi (- 1030))"
    by (rule average_two_powi) simp_all
  have inf: "fl_div (Finite 100) (Finite (2 powi (- 1030))) = PosInf"
    by (rule quotient_overflows) simp_all
  have pos: "(0::real) < 2 powi (- 1030)"
    by (simp only: zero_less_power_int zero_less_numeral)
  have over: "calculate_slides_needed sample_config (Finite 100)
        (Finite (2 powi (- 1030))) (Finite (2 powi (- 1030))) False = Inl OverflowError"
    using full_mode_slide_count
            [where d = 100 and min_duration = "Finite (2 powi (- 1030))"
               and max_duration = "Finite (2 powi (- 1030))" and a = "2 powi (- 1030)"
               and cfg = sample_config]
          tiny inf pos
    by blast
  have cap: "- int_float_limit < MAX_SLIDES_LIMIT sample_config"
    by (rule int_float_limit_pos) (simp add: sample_config_def)
  have "calculate_slides_needed sample_config (Finite (5404319552844595 / 18014398509481984))
          (round64 (1 / 10)) (round64 (1 / 10)) False = Inr 2"
    using full_mode_slide_count
            [where d = "5404319552844595 / 18014398509481984"
               and min_duration = "round64 (1 / 10)" and max_duration = "round64 (1 / 10)"
               and a = "3602879701896397 / 36028797018963968"
               and q = "6755399441055743 / 2251799813685248" and cfg = sample_config]
          average_0_1 quotient_0_3_0_1 cap
    by (simp add: sample_config_def)
  moreover have "calculate_slides_needed sample_config (Finite 100000) (Finite 3) (Finite 7) False
                   = Inr 1000"
    using full_mode_slide_count
            [where d = 100000 and min_duration = "Finite 3" and max_duration = "Finite 7"
               and a = 5 and q = 20000 and cfg = sample_config]
          average_3_7 quotient_20000 cap
    by (simp add: sample_config_def)
  ultimately have "(0::real) \<le> 5404319552844595 / 18014398509481984
   \<and> fl_div (fl_add (round64 (1 / 10)) (round64 (1 / 10))) (Finite 2)
       = Finite (3602879701896397 / 36028797018963968)
   \<and> (0::real) < 3602879701896397 / 36028797018963968
   \<and> fl_div (Finite (5404319552844595 / 18014398509481984))
             (Finite (3602879701896397 / 36028797018963968))
       = Finite (6755399441055743 / 2251799813685248)
   \<and> calculate_slides_needed sample_config (Finite (5404319552844595 / 18014398509481984))
        (round64 (1 / 10)) (round64 (1 / 10)) False = Inr 2
   \<and> calculate_slides_needed sample_config (Finite 100000) (Finite 3) (Finite 7) False = Inr 1000
   \<and> 1000 \<le> MAX_SLIDES_LIMIT sample_config"
    using average_0_1 quotient_0_3_0_1 by (simp add: sample_config_def)
  with tiny inf over show ?thesis
    by (simp only: simp_thms)
qed

text \<open>
  C5, as stated: in test mode, for every duration range with positive average, the slide
  count is the floor of 60 divided by the average. It is not. For the range
  (\<open>2 ^ -1030\<close>, \<open>2 ^ -1030\<close>) the quotient is infinite and \<^verbatim>\<open>int\<close> raises
  \<^verbatim>\<open>OverflowError\<close>; for the range (0.01, 0.01) the count is 6000, the quotient being
  rounded, where the floor of the exact quotient of the same floats is 5999.
\<close>

theorem test_mode_slide_count_counterexample:
  "calculate_slides_needed sample_config (Finite 100)
     (Finite (2 powi (- 1030))) (Finite (2 powi (- 1030))) True = Inl OverflowError
   \<and> round64 (1 / 100) = Finite (5764607523034235 / 576460752303423488)
   \<and> calculate_slides_needed sample_config (Finite 100) (round64 (1 / 100)) (round64 (1 / 100)) True
       = Inr 6000
   \<and> \<lfloor>(60 :: real) / ((5764607523034235 / 576460752303423488
                          + 5764607523034235 / 576460752303423488) / 2)\<rfloor> = 5999"
proof -
  have c1: "calculate_slides_needed sample_config (Finite 100)
     (Finite (2 powi (- 1030))) (Finite (2 powi (- 1030))) True = Inl OverflowError"
    by (rule tiny_range_overflows) simp_all
  have c2: "calculate_slides_needed sample_config (Finite 100) (round64 (1 / 100)) (round64 (1 / 100)) True
       = Inr 6000"
    using average_0_01 quotient_60_0_01
    by (simp add: calculate_slides_needed_def py_truediv_def)
  have c3: "\<lfloor>(60 :: real) / ((5764607523034235 / 576460752303423488
                          + 5764607523034235 / 576460752303423488) / 2)\<rfloor> = 5999" by simp
  show ?thesis
    using c1 c2 c3 float_0_01 by (intro conjI)
qed

text \<open>
  C5, amended. In test mode, for a duration range whose float average \<open>a\<close> is finite and
  positive: if the float quotient \<open>q\<close> of 60 by \<open>a\<close> is finite, the slide count is the floor
  of \<open>q\<close>; if the quotient overflows to infinity, \<^verbatim>\<open>OverflowError\<close> is raised. Neither the
  audio duration nor the configuration (so no cap) enters the result: two calls that differ
  only in them return the same.
\<close>

theorem test_mode_slide_count:
  "(fl_div (fl_add min_duration max_duration) (Finite 2) = Finite a \<longrightarrow> 0 < a \<longrightarrow>
      fl_div (Finite 60) (Finite a) = Finite q \<longrightarrow>
      calculate_slides_needed cfg audio_duration min_duration max_duration True = Inr \<lfloor>q\<rfloor>)
   \<and> (fl_div (fl_add min_duration max_duration) (Finite 2) = Finite a \<longrightarrow> 0 < a \<longrightarrow>
      fl_div (Finite 60) (Finite a) = PosInf \<longrightarrow>
      calculate_slides_needed cfg audio_duration min_duration max_duration True
        = Inl OverflowError)
   \<and> calculate_slides_needed cfg' audio_duration' min_duration max_duration True =
     calculate_slides_needed cfg audio_duration min_duration max_duration True"
  using test_mode_finite [of min_duration max_duration a q cfg audio_duration]
        test_mode_overflow [of min_duration max_duration a cfg audio_duration]
  by (simp add: calculate_slides_needed_def)

theorem test_mode_slide_count_witness:
  "fl_div (fl_add (round64 (1 / 20)) (round64 (7 / 100))) (Finite 2)
     = Finite (8646911284551353 / 144115188075855872)
   \<and> (0::real) < 8646911284551353 / 144115188075855872
   \<and> fl_div (Finite 60) (Finite (8646911284551353 / 144115188075855872))
       = Finite (8796093022207999 / 8796093022208)
   \<and> calculate_slides_needed (sample_config\<lparr>MAX_SLIDES_LIMIT := 10\<rparr>) (Finite 100000)
        (round64 (1 / 20)) (round64 (7 / 100)) True = Inr 999
   \<and> calculate_slides_needed sample_config (Finite 5) (round64 (1 / 20)) (round64 (7 / 100)) True =
     calculate_slides_needed (sample_config\<lparr>MAX_SLIDES_LIMIT := 10\<rparr>) (Finite 100000)
        (round64 (1 / 20)) (round64 (7 / 100)) True
   \<and> fl_div (fl_add (Finite (2 powi (- 1030))) (Finite (2 powi (- 1030)))) (Finite 2)
       = Finite (2 powi (- 1030))
   \<and> fl_div (Finite 60) (Finite (2 powi (- 1030))) = PosInf
   \<and> calculate_slides_needed sample_config (Finite 100)
        (Finite (2 powi (- 1030))) (Finite (2 powi (- 1030))) True = Inl OverflowError"
proof -
  have tiny: "fl_div (fl_add (Finite (2 powi (- 1030))) (Finite (2 powi (- 1030)))) (Finite 2)
                = Finite (2 powi (- 1030))"
    by (rule average_two_powi) simp_all
  have inf: "fl_div (Finite 60) (Finite (2 powi (- 1030))) = PosInf"
    by (rule quotient_overflows) simp_all
  have pos: "(0::real) < 2 powi (- 1030)"
    by (simp only: zero_less_power_int zero_less_numeral)
  have over: "calculate_slides_needed sample_config (Finite 100)
        (Finite (2 powi (- 1030))) (Finite (2 powi (- 1030))) True = Inl OverflowError"
    using test_mode_slide_count
            [where min_duration = "Finite (2 powi (- 1030))"
               and max_duration = "Finite (2 powi (- 1030))" and a = "2 powi (- 1030)"
               and cfg = sample_config and audio_duration = "Finite 100"]
          tiny inf pos
    by blast
  have "fl_div (fl_add (round64 (1 / 20)) (round64 (7 / 100))) (Finite 2)
     = Finite (8646911284551353 / 144115188075855872)
   \<and> (0::real) < 8646911284551353 / 144115188075855872
   \<and> fl_div (Finite 60) (Finite (8646911284551353 / 144115188075855872))
       = Finite (8796093022207999 / 8796093022208)
   \<and> calculate_slides_needed (sample_config\<lparr>MAX_SLIDES_LIMIT := 10\<rparr>) (Finite 100000)
        (round64 (1 / 20)) (round64 (7 / 100)) True = Inr 999
   \<and> calculate_slides_needed sample_config (Finite 5) (round64 (1 / 20)) (round64 (7 / 100)) True =
     calculate_slides_needed (sample_config\<lparr>MAX_SLIDES_LIMIT := 10\<rparr>) (Finite 100000)
        (round64 (1 / 20)) (round64 (7 / 100)) True"
    using test_mode_slide_count
          [where min_duration = "round64 (1 / 20)" and max_duration = "round64 (7 / 100)"
             and a = "8646911284551353 / 144115188075855872"
             and q = "8796093022207999 / 8796093022208"
             and cfg = "sample_config\<lparr>MAX_SLIDES_LIMIT := 10\<rparr>"
             and audio_duration = "Finite 100000"
             and cfg' = sample_config and audio_duration' = "Finite 5"]
        average_0_05_0_07 quotient_60_0_06
    by simp
  with tiny inf over show ?thesis
    by (simp only: simp_thms)
qed

text \<open>
  C8, as stated: with a zero average the planner fails with \<open>InvalidDurationRange\<close>
  instead of dividing by zero. It does not: for the range (0, 0) neither mode ends in
  \<open>InvalidDurationRange\<close>.
\<close>

theorem zero_average_counterexample:
  "calculate_slides_needed sample_config (Finite 100) (Finite 0) (Finite 0) False
     \<noteq> Inl InvalidDurationRange
   \<and> calculate_slides_needed sample_config (Finite 100) (Finite 0) (Finite 0) True
     \<noteq> Inl InvalidDurationRange"
  by (simp add: calculate_slides_needed_def py_truediv_def round64_zero)

text \<open>
  C8, amended. For every duration range whose sum, or whose average, is zero, the planner
  returns no slide count in either mode: the division by the average raises
  \<open>ZeroDivisionError\<close>.
\<close>

theorem zero_average_raises:
  "(fl_add min_duration max_duration = Finite 0 \<longrightarrow>
      calculate_slides_needed cfg audio_duration min_duration max_duration test_mode
        = Inl ZeroDivisionError)
   \<and> (fl_div (fl_add min_duration max_duration) (Finite 2) = Finite 0 \<longrightarrow>
      calculate_slides_needed cfg audio_duration min_duration max_duration test_mode
        = Inl ZeroDivisionError)"
  by (simp add: calculate_slides_needed_def py_truediv_def round64_zero)

theorem zero_average_raises_witness:
  "fl_add (Finite 0) (Finite 0) = Finite 0
   \<and> fl_div (fl_add (Finite 0) (Finite 0)) (Finite 2) = Finite 0
   \<and> calculate_slides_needed sample_config (Finite 100) (Finite 0) (Finite 0) False
       = Inl ZeroDivisionError
   \<and> calculate_slides_needed sample_config (Finite 100) (Finite 0) (Finite 0) True
       = Inl ZeroDivisionError"
  using zero_average_raises [of "Finite 0" "Finite 0" sample_config "Finite 100" False]
        zero_average_raises [of "Finite 0" "Finite 0" sample_config "Finite 100" True]
  by (simp add: round64_zero)

section \<open>Image selection: properties\<close>

text \<open>
  C2, as stated: for a non-empty catalog the selected sequence has exactly the planned
  length, in both modes. It does not: with three images, test mode returns three images for
  a plan of five, and full mode returns three images for a plan of two.
\<close>

theorem select_images_length_counterexample:
  "int (length (select_images id [''a.png'', ''b.png'', ''c.png''] 5 True)) \<noteq> 5
   \<and> int (length (select_images id [''a.png'', ''b.png'', ''c.png''] 2 False)) \<noteq> 2"
  by (simp add: select_images_def py_slice_to_def)

text \<open>
  C2, amended. For a non-empty catalog and a non-negative planned slide count, the
  selected sequence has the length of the smaller of plan and catalog size in test mode,
  and of the larger of the two in full mode.
\<close>

theorem select_images_length:
  "all_images \<noteq> [] \<Longrightarrow> 0 \<le> n \<Longrightarrow>
   int (length (select_images rng all_images n test_mode)) =
     (if test_mode then min n (int (length all_images)) else max n (int (length all_images)))"
proof (cases test_mode)
  case True
  assume "all_images \<noteq> []" "0 \<le> n"
  with True show ?thesis
    by (auto simp: select_images_def py_slice_to_nonneg min_def)
next
  case False
  assume "all_images \<noteq> []" "0 \<le> n"
  with False show ?thesis
    by (simp add: select_images_full_eq max_def)
qed

theorem select_images_length_witness:
  "[''a.png'', ''b.png'', ''c.png''] \<noteq> [] \<and> (0::int) \<le> 5
   \<and> length (select_images id [''a.png'', ''b.png'', ''c.png''] 5 True) = 3
   \<and> length (select_images id [''a.png'', ''b.png'', ''c.png''] 5 False) = 5"
  using select_images_length [of "[''a.png'', ''b.png'', ''c.png'']" 5 id True]
        select_images_length [of "[''a.png'', ''b.png'', ''c.png'']" 5 id False]
  by simp

text \<open>
  C3. In full mode, for a non-empty catalog and a slide count of at least the catalog
  size, the result has exactly that many entries, begins with the whole catalog in catalog
  order (so every image occurs), and every further entry is an image of the catalog.
\<close>

theorem full_mode_covers_catalog:
  "all_images \<noteq> [] \<Longrightarrow> int (length all_images) \<le> n \<Longrightarrow>
   int (length (select_images rng all_images n False)) = n
   \<and> take (length all_images) (select_images rng all_images n False) = all_images
   \<and> set all_images \<subseteq> set (select_images rng all_images n False)
   \<and> set (drop (length all_images) (select_images rng all_images n False)) \<subseteq> set all_images"
  by (auto simp: select_images_full_eq random_choice_mem)

theorem full_mode_covers_catalog_witness:
  "[''a.png'', ''b.png'', ''c.png''] \<noteq> [] \<and> int (length [''a.png'', ''b.png'', ''c.png'']) \<le> 5
   \<and> length (select_images Suc [''a.png'', ''b.png'', ''c.png''] 5 False) = 5
   \<and> take (length [''a.png'', ''b.png'', ''c.png''])
         (select_images Suc [''a.png'', ''b.png'', ''c.png''] 5 False)
       = [''a.png'', ''b.png'', ''c.png'']
   \<and> set (drop (length [''a.png'', ''b.png'', ''c.png''])
              (select_images Suc [''a.png'', ''b.png'', ''c.png''] 5 False))
       \<subseteq> set [''a.png'', ''b.png'', ''c.png'']"
  using full_mode_covers_catalog [of "[''a.png'', ''b.png'', ''c.png'']" 5 Suc]
  by simp

text \<open>
  C4. In full mode, a slide count of at most the catalog size adds no repeats and drops
  nothing: the result is the catalog itself.
\<close>

theorem full_mode_never_truncates:
  "n \<le> int (length all_images) \<Longrightarrow> select_images rng all_images n False = all_images"
  by (simp add: select_images_def)

theorem full_mode_never_truncates_witness:
  "(2::int) \<le> int (length [''a.png'', ''b.png'', ''c.png''])
   \<and> select_images id [''a.png'', ''b.png'', ''c.png''] 2 False
       = [''a.png'', ''b.png'', ''c.png'']"
  using full_mode_never_truncates [of 2 "[''a.png'', ''b.png'', ''c.png'']" id]
  by simp

text \<open>
  C6. In test mode, for every catalog and every non-negative slide count, the result is
  the first \<open>slides_needed\<close> images of the catalog: a prefix, of length the smaller of slide
  count and catalog size, and the same for every random source.
\<close>

theorem test_mode_prefix:
  "0 \<le> n \<Longrightarrow>
   select_images rng all_images n True = take (nat n) all_images
   \<and> prefix (select_images rng all_images n True) all_images
   \<and> int (length (select_images rng all_images n True)) = min n (int (length all_images))
   \<and> select_images rng' all_images n True = select_images rng all_images n True"
  by (auto simp: select_images_def py_slice_to_nonneg take_is_prefix)

theorem test_mode_prefix_witness:
  "(0::int) \<le> 2
   \<and> select_images id [''a.png'', ''b.png'', ''c.png''] 2 True = [''a.png'', ''b.png'']
   \<and> prefix (select_images id [''a.png'', ''b.png'', ''c.png''] 2 True)
            [''a.png'', ''b.png'', ''c.png'']
   \<and> select_images Suc [''a.png'', ''b.png'', ''c.png''] 2 True
      = select_images id [''a.png'', ''b.png'', ''c.png''] 2 True"
  using test_mode_prefix [of 2 id "[''a.png'', ''b.png'', ''c.png'']" Suc]
  by simp

text \<open>
  C7. For an empty catalog the selection is empty, whatever the slide count and the mode.
\<close>

theorem empty_catalog_selects_nothing:
  "select_images rng [] slides_needed test_mode = []"
  by (simp add: select_images_def)

section \<open>The orchestrator: properties\<close>

text \<open>
  C9, as stated: a dry run on an existing directory with a valid duration range can only
  fail with \<open>DirectoryNotFound\<close> or \<open>NoAudioFound\<close>. It can fail otherwise: for the
  range (\<open>2 ^ -1030\<close>, \<open>2 ^ -1030\<close>), positive and ordered, \<^verbatim>\<open>OverflowError\<close> escapes from
  the slide count, in test mode and in full mode.
\<close>

theorem dry_run_only_plans_counterexample:
  "fst (create_slideshow_with_audio sample_config sample_world ''/show'' True True
          (Finite (2 powi (- 1030))) (Finite (2 powi (- 1030)))) = Raise OverflowError
   \<and> fst (create_slideshow_with_audio sample_config sample_world ''/show'' False True
          (Finite (2 powi (- 1030))) (Finite (2 powi (- 1030)))) = Raise OverflowError"
proof -
  have "calculate_slides_needed sample_config (Finite 25)
          (Finite (2 powi (- 1030))) (Finite (2 powi (- 1030))) test_mode = Inl OverflowError"
    for test_mode
    by (rule tiny_range_overflows) simp_all
  then show ?thesis
    unfolding dry_run_result by (simp add: sample_world_def)
qed

text \<open>
  C9, amended. A dry run returns \<^verbatim>\<open>False\<close> for a missing directory
  (\<open>DirectoryNotFound\<close>, no call made) and for lack of audio files (\<open>NoAudioFound\<close>, after
  the audio discovery alone). Otherwise its calls are exactly the audio discovery, the
  audio duration query and one glob per image extension, in this order; it succeeds if the
  slide count is computed, and an exception of the slide count escapes. The audio merger,
  the renderer and the combiner are never called.
\<close>

theorem dry_run_only_plans:
  "create_slideshow_with_audio cfg w image_dir test_mode True min_duration max_duration =
     (if \<not> os_path_exists w image_dir then (ReturnFalse DirectoryNotFound, [])
      else if find_audio_files w image_dir = []
      then (ReturnFalse NoAudioFound, [FindAudioFiles image_dir])
      else
        (case calculate_slides_needed cfg
                (get_total_audio_duration w (find_audio_files w image_dir))
                min_duration max_duration test_mode of
           Inl e \<Rightarrow> Raise e
         | Inr slides_needed \<Rightarrow> ReturnTrue,
         [FindAudioFiles image_dir, GetTotalAudioDuration (find_audio_files w image_dir)]
         @ map (\<lambda>ext. GlobGlob (os_path_join w image_dir ext)) (IMAGE_EXTENSIONS cfg)))
   \<and> MergeAudio audio_files audio_out
       \<notin> set (snd (create_slideshow_with_audio cfg w image_dir test_mode True
                      min_duration max_duration))
   \<and> CreateSlideshow images video_out lo hi
       \<notin> set (snd (create_slideshow_with_audio cfg w image_dir test_mode True
                      min_duration max_duration))
   \<and> CombineVideoAudio video audio final
       \<notin> set (snd (create_slideshow_with_audio cfg w image_dir test_mode True
                      min_duration max_duration))"
  by (auto simp: dry_run_result)

theorem dry_run_only_plans_witness:
  "create_slideshow_with_audio sample_config sample_world ''/show'' False True
     (Finite 3) (Finite 7) =
       (ReturnTrue,
        [FindAudioFiles ''/show'', GetTotalAudioDuration [''/show/song.mp3''],
         GlobGlob ''/show/*.png'', GlobGlob ''/show/*.jpg''])
   \<and> create_slideshow_with_audio sample_config sample_world ''/nowhere'' False True
       (Finite 3) (Finite 7) = (ReturnFalse DirectoryNotFound, [])"
proof -
  have "calculate_slides_needed sample_config (Finite 25) (Finite 3) (Finite 7) False = Inr 5"
    using full_mode_finite [of 25 "Finite 3" "Finite 7" 5 5 sample_config]
          average_3_7 quotient_5 int_float_limit_pos [of "MAX_SLIDES_LIMIT sample_config"]
    by (simp add: sample_config_def)
  then show ?thesis
    using dry_run_only_plans [of sample_config sample_world "''/show''" False "Finite 3" "Finite 7"]
          dry_run_only_plans [of sample_config sample_world "''/nowhere''" False "Finite 3" "Finite 7"]
    by (simp add: sample_config_def sample_world_def)
qed



end
